theory Spec2Isabelle
  imports Complex_Main "HOL-Library.Multiset"
begin

section \<open>Values of the program\<close>

text \<open>
  The script \<open>auv_pf.py\<close> is Python 2 (print statements): \<open>/\<close> on two integers is floor
  division. Its float64 quantities (weights, poses, time stamps) are modelled by exact
  reals, so rounding is not part of the model. Exceptions are values of \<open>error\<close>.
\<close>

datatype error =
  ZeroDivisionError | ValueError | IndexError | TypeError | AttributeError | Blocked

text \<open>
  \<open>Blocked\<close> is not an exception: it stands for a blocking \<open>Queue.get\<close> that never returns
  because no further response arrives.
\<close>

text \<open>
  A \<open>Particle\<close> object as far as this script reads and writes it: the seven fields of
  \<open>p_pose\<close> (position x, y, z and orientation x, y, z, w) and the weight \<open>w\<close>.
\<close>

record particle =
  position_x :: real
  position_y :: real
  position_z :: real
  orientation_x :: real
  orientation_y :: real
  orientation_z :: real
  orientation_w :: real
  w :: real

section \<open>The worker: \<open>predict\<close>, \<open>update\<close> and one task of \<open>multiprocess_pf\<close>\<close>

text \<open>
  \<open>Particle.motion_pred\<close> and \<open>Particle.meas_update\<close> live in the module
  \<open>auv_particle\<close>; they are parameters of the model. Both mutate the particle they are
  called on, so they are functions from the particle to the particle afterwards.
\<close>

text \<open>
  \<open>for i in range(0, nr_of_particles): particles[i].motion_pred(odom_t, dt)\<close>;
  indexing a numpy array beyond its length raises IndexError.
\<close>

fun predict_loop :: "(particle \<Rightarrow> particle) \<Rightarrow> nat list \<Rightarrow> particle list \<Rightarrow> error + particle list" where
  "predict_loop f [] particles = Inr particles"
| "predict_loop f (i # rest) particles =
     (if i < length particles
      then predict_loop f rest (particles[i := f (particles ! i)])
      else Inl IndexError)"

definition predict ::
  "('o \<Rightarrow> real \<Rightarrow> particle \<Rightarrow> particle) \<Rightarrow> 'o \<Rightarrow> real \<Rightarrow> nat \<Rightarrow> particle list \<Rightarrow> error + particle list" where
  "predict motion_pred odom_t dt nr_of_particles particles =
     predict_loop (motion_pred odom_t dt) [0..<nr_of_particles] particles"

text \<open>
  The loop of \<open>update\<close>: \<open>for i, id in enumerate(range(start_id, end_id))\<close>, with the
  lists \<open>weights\<close> and \<open>ids\<close> as accumulators and the particle array updated in place
  (\<open>idn\<close> is the loop variable \<open>id\<close>).
\<close>

fun update_loop ::
  "(particle \<Rightarrow> particle) \<Rightarrow> nat \<Rightarrow> nat list \<Rightarrow> particle list \<Rightarrow> real list \<Rightarrow> nat list
     \<Rightarrow> error + (particle list \<times> real list \<times> nat list)" where
  "update_loop f i [] particles weights ids = Inr (particles, weights, ids)"
| "update_loop f i (idn # rest) particles weights ids =
     (if i < length particles
      then (let particles' = particles[i := f (particles ! i)]
            in update_loop f (Suc i) rest particles'
                 (weights @ [w (particles' ! i)]) (ids @ [idn]))
      else Inl IndexError)"

text \<open>
  \<open>update\<close> returns \<open>(weights_array, ids)\<close>, where \<open>weights_array\<close> is a fresh numpy
  array built from the list \<open>weights\<close>, increased by \<open>1.e-30\<close> in place. The model also
  returns the particle array as the loop left it.
\<close>

definition update ::
  "('m \<Rightarrow> particle \<Rightarrow> particle) \<Rightarrow> 'm \<Rightarrow> particle list \<Rightarrow> nat \<Rightarrow> nat
     \<Rightarrow> error + (particle list \<times> (real list \<times> nat list))" where
  "update meas_update mbes_meas_ranges particles start_id end_id =
     (case update_loop (meas_update mbes_meas_ranges) 0 [start_id..<end_id] particles [] [] of
        Inl e \<Rightarrow> Inl e
      | Inr (particles', weights, ids) \<Rightarrow>
          Inr (particles', (map (\<lambda>x. x + 1 / 10 ^ 30) weights, ids)))"

text \<open>
  One task of the service loop of \<open>multiprocess_pf\<close>: every \<open>(odom_msg, dt)\<close> of the
  task's list is predicted in order, then \<open>update\<close> gives the output put on the queue.
\<close>

fun predict_all ::
  "('o \<Rightarrow> real \<Rightarrow> particle \<Rightarrow> particle) \<Rightarrow> ('o \<times> real) list \<Rightarrow> nat \<Rightarrow> particle list
     \<Rightarrow> error + particle list" where
  "predict_all motion_pred [] nr_of_particles particles = Inr particles"
| "predict_all motion_pred (odom_elem # rest) nr_of_particles particles =
     (case predict motion_pred (fst odom_elem) (snd odom_elem) nr_of_particles particles of
        Inl e \<Rightarrow> Inl e
      | Inr particles' \<Rightarrow> predict_all motion_pred rest nr_of_particles particles')"

definition multiprocess_pf_task ::
  "('o \<Rightarrow> real \<Rightarrow> particle \<Rightarrow> particle) \<Rightarrow> ('m \<Rightarrow> particle \<Rightarrow> particle) \<Rightarrow> nat \<Rightarrow> nat
     \<Rightarrow> particle list \<Rightarrow> 'm \<times> ('o \<times> real) list
     \<Rightarrow> error + (particle list \<times> (real list \<times> nat list))" where
  "multiprocess_pf_task motion_pred meas_update start_id end_id particles task =
     (case predict_all motion_pred (snd task) (end_id - start_id) particles of
        Inl e \<Rightarrow> Inl e
      | Inr particles' \<Rightarrow> update meas_update (fst task) particles' start_id end_id)"

section \<open>numpy floats with their special values\<close>

text \<open>
  numpy does not raise on a float division by zero: the result is \<open>nan\<close> or an infinity
  (with a warning). \<open>Fin\<close> carries the finite values; signed zeros are not
  distinguished, a zero divisor counts as \<open>+0.0\<close>.
\<close>

datatype npfloat = Fin real | PInf | NInf | NaN

fun np_add :: "npfloat \<Rightarrow> npfloat \<Rightarrow> npfloat" where
  "np_add (Fin a) (Fin b) = Fin (a + b)"
| "np_add NaN y = NaN"
| "np_add x NaN = NaN"
| "np_add PInf NInf = NaN"
| "np_add NInf PInf = NaN"
| "np_add PInf y = PInf"
| "np_add x PInf = PInf"
| "np_add NInf y = NInf"
| "np_add x NInf = NInf"

fun np_div :: "npfloat \<Rightarrow> npfloat \<Rightarrow> npfloat" where
  "np_div (Fin a) (Fin b) =
     (if b = 0 then (if a = 0 then NaN else if 0 < a then PInf else NInf) else Fin (a / b))"
| "np_div NaN y = NaN"
| "np_div x NaN = NaN"
| "np_div (Fin a) y = Fin 0"
| "np_div PInf (Fin b) = (if 0 \<le> b then PInf else NInf)"
| "np_div NInf (Fin b) = (if 0 \<le> b then NInf else PInf)"
| "np_div x y = NaN"

fun np_square :: "npfloat \<Rightarrow> npfloat" where
  "np_square (Fin a) = Fin (a * a)"
| "np_square NaN = NaN"
| "np_square x = PInf"

fun np_less :: "npfloat \<Rightarrow> npfloat \<Rightarrow> bool" where
  "np_less (Fin a) (Fin b) = (a < b)"
| "np_less NaN y = False"
| "np_less x NaN = False"
| "np_less x NInf = False"
| "np_less PInf y = False"
| "np_less x y = True"

fun np_eq :: "npfloat \<Rightarrow> npfloat \<Rightarrow> bool" where
  "np_eq (Fin a) (Fin b) = (a = b)"
| "np_eq PInf PInf = True"
| "np_eq NInf NInf = True"
| "np_eq x y = False"

definition np_sum :: "npfloat list \<Rightarrow> npfloat" where
  "np_sum xs = foldl np_add (Fin 0) xs"

section \<open>The resampling engine: \<open>resample\<close> and \<open>reassign_poses\<close>\<close>

text \<open>
  \<open>resample\<close> and \<open>reassign_poses\<close> read the attribute \<open>self.particles\<close>. The class
  never assigns it: \<open>__init__\<close> binds the array it creates to the local variable
  \<open>particles\<close> and hands slices of it to the worker processes. The attribute is therefore
  a \<open>particle list option\<close>, \<open>None\<close> when it does not exist, and every read of a missing
  attribute raises AttributeError.
\<close>

text \<open>
  \<open>dupes = indices[:].tolist()\<close> followed by \<open>for i in keep: dupes.remove(i)\<close>;
  \<open>list.remove\<close> deletes the first occurrence and raises ValueError when there is none.
\<close>

fun remove_keep :: "nat list \<Rightarrow> nat list \<Rightarrow> error + nat list" where
  "remove_keep [] dupes = Inr dupes"
| "remove_keep (i # keep) dupes =
     (if i \<in> set dupes then remove_keep keep (remove1 i dupes) else Inl ValueError)"

text \<open>\<open>lost = [i for i in range(self.pc) if i not in keep]\<close>\<close>

definition lost_ids :: "nat \<Rightarrow> nat list \<Rightarrow> nat list" where
  "lost_ids pc keep = filter (\<lambda>i. i \<notin> set keep) [0..<pc]"

text \<open>
  The seven assignments of one iteration of \<open>reassign_poses\<close>: the pose fields of the
  source particle are written into the target particle, its weight is left alone.
\<close>

definition copy_pose :: "particle \<Rightarrow> particle \<Rightarrow> particle" where
  "copy_pose src dst =
     dst\<lparr>position_x := position_x src, position_y := position_y src,
         position_z := position_z src, orientation_x := orientation_x src,
         orientation_y := orientation_y src, orientation_z := orientation_z src,
         orientation_w := orientation_w src\<rparr>"

text \<open>
  An exception in the coordinator leaves the particles as they are at that moment (rospy
  logs a failed callback and goes on), so the loops of the coordinator return the
  exception, if any, together with the store.
\<close>

fun reassign_loop ::
  "nat list \<Rightarrow> nat list \<Rightarrow> nat list \<Rightarrow> particle list option
     \<Rightarrow> error option \<times> particle list option" where
  "reassign_loop [] lost dupes self_particles = (None, self_particles)"
| "reassign_loop (i # rest) lost dupes None = (Some AttributeError, None)"
| "reassign_loop (i # rest) lost dupes (Some particles) =
     (if \<not> i < length dupes then (Some IndexError, Some particles)
      else if \<not> dupes ! i < length particles then (Some IndexError, Some particles)
      else if \<not> lost ! i < length particles then (Some IndexError, Some particles)
      else reassign_loop rest lost dupes
             (Some (particles[lost ! i :=
                      copy_pose (particles ! (dupes ! i)) (particles ! (lost ! i))])))"

definition reassign_poses ::
  "nat list \<Rightarrow> nat list \<Rightarrow> particle list option \<Rightarrow> error option \<times> particle list option" where
  "reassign_poses lost dupes self_particles =
     reassign_loop [0..<length lost] lost dupes self_particles"

text \<open>
  \<open>for i in range(self.pc): self.particles[i].add_noise([3.,3.,0.,0.,0.,0.0])\<close>.
  \<open>Particle.add_noise\<close> is in \<open>auv_particle\<close> and draws random numbers; the parameter
  \<open>add_noise\<close> gives, for the slot and the noise profile, the particle after the call.
\<close>

fun add_noise_loop ::
  "(nat \<Rightarrow> real list \<Rightarrow> particle \<Rightarrow> particle) \<Rightarrow> nat list \<Rightarrow> particle list option
     \<Rightarrow> error option \<times> particle list option" where
  "add_noise_loop add_noise [] self_particles = (None, self_particles)"
| "add_noise_loop add_noise (i # rest) None = (Some AttributeError, None)"
| "add_noise_loop add_noise (i # rest) (Some particles) =
     (if i < length particles
      then add_noise_loop add_noise rest
             (Some (particles[i := add_noise i [3, 3, 0, 0, 0, 0] (particles ! i)]))
      else (Some IndexError, Some particles))"

text \<open>
  What one call of \<open>resample\<close> does: the messages it logs with \<open>rospy.loginfo\<close>, the
  array \<open>weights\<close> after the in-place division, \<open>N_eff\<close>, whether the resampling branch
  was taken, the exception raised (if any) and the particle store afterwards.
\<close>

record resample_result =
  logged :: "string list"
  normalized :: "npfloat list"
  N_eff :: npfloat
  resampled :: bool
  raised :: "error option"
  particles_after :: "particle list option"

text \<open>
  \<open>residual_resample\<close> is in the module \<open>resampling\<close> and is a parameter, as is
  \<open>set_order\<close>, the order in which \<open>list(set(indices))\<close> enumerates the distinct ids
  (Python leaves it open).
\<close>

definition resample_branch ::
  "(nat list \<Rightarrow> nat list) \<Rightarrow> (nat \<Rightarrow> real list \<Rightarrow> particle \<Rightarrow> particle) \<Rightarrow> nat
     \<Rightarrow> particle list option \<Rightarrow> nat list \<Rightarrow> error option \<times> particle list option" where
  "resample_branch set_order add_noise pc self_particles indices =
     (let keep = set_order indices;
          lost = lost_ids pc keep
      in case remove_keep keep indices of
           Inl e \<Rightarrow> (Some e, self_particles)
         | Inr dupes \<Rightarrow>
             (case reassign_poses lost dupes self_particles of
                (Some e, particles') \<Rightarrow> (Some e, particles')
              | (None, particles') \<Rightarrow> add_noise_loop add_noise [0..<pc] particles'))"

definition resample ::
  "(nat list \<Rightarrow> nat list) \<Rightarrow> (npfloat list \<Rightarrow> nat list) \<Rightarrow> (nat \<Rightarrow> real list \<Rightarrow> particle \<Rightarrow> particle)
     \<Rightarrow> nat \<Rightarrow> particle list option \<Rightarrow> npfloat list \<Rightarrow> resample_result" where
  "resample set_order residual_resample add_noise pc self_particles weights =
     (let weights' = map (\<lambda>x. np_div x (np_sum weights)) weights;
          zero = np_eq (np_sum weights') (Fin 0);
          n_eff = (if zero then Fin (real pc)
                   else np_div (Fin 1) (np_sum (map np_square weights')));
          log = (if zero then [''All weights zero!''] else [])
      in if np_less n_eff (Fin (real pc * 0.5))
         then (let indices = residual_resample weights';
                   r = resample_branch set_order add_noise pc self_particles indices
               in \<lparr>logged = log, normalized = weights', N_eff = n_eff, resampled = True,
                   raised = fst r, particles_after = snd r\<rparr>)
         else \<lparr>logged = log @ [''Number of effective particles high - not resampling''],
                normalized = weights', N_eff = n_eff, resampled = False,
                raised = None, particles_after = self_particles\<rparr>)"

section \<open>The coordinator\<close>

text \<open>A ROS message as far as the script looks at it: its header stamp and the rest.\<close>

record 'a stamped =
  stamp :: real
  payload :: 'a

text \<open>
  The \<open>PoseWithCovarianceStamped\<close> message \<open>self.avg_pose\<close>: the fields that
  \<open>average_pose\<close> writes. The orientation is what \<open>quaternion_from_euler\<close> (from
  \<open>tf.transformations\<close>, a parameter) returns.
\<close>

record 'q pose_stamped =
  pose_position_x :: real
  pose_position_y :: real
  pose_position_z :: real
  pose_orientation :: 'q
  header_stamp :: real

subsection \<open>\<open>__init__\<close>: the partitions\<close>

text \<open>Python 2 \<open>range(start, stop, step)\<close> for a step that is not negative.\<close>

function range_from :: "nat \<Rightarrow> nat \<Rightarrow> nat \<Rightarrow> nat list" where
  "range_from start stop step =
     (if step = 0 \<or> stop \<le> start then [] else start # range_from (start + step) stop step)"
  by pat_completeness auto
termination
  by (relation "measure (\<lambda>(start, stop, step). stop - start)") auto

declare range_from.simps [simp del]

definition py_range :: "nat \<Rightarrow> nat \<Rightarrow> nat \<Rightarrow> error + nat list" where
  "py_range start stop step =
     (if step = 0 then Inl ValueError else Inr (range_from start stop step))"

text \<open>
  The loop \<open>for queue_id, start_id in enumerate(range(0, self.pc, chunk_size))\<close>. Each
  process is recorded as \<open>(queue_id, start_id, end_id)\<close>: it gets the particles
  \<open>particles[start_id:end_id]\<close> and the queue \<open>self.in_queues[queue_id]\<close>, and the list
  \<open>in_queues\<close> has \<open>nr_of_processes\<close> entries. The processes are started after the loop.
\<close>

fun create_processes :: "nat \<Rightarrow> nat \<Rightarrow> nat \<Rightarrow> nat \<Rightarrow> nat list \<Rightarrow> error + (nat \<times> nat \<times> nat) list" where
  "create_processes pc chunk_size nr queue_id [] = Inr []"
| "create_processes pc chunk_size nr queue_id (start_id # rest) =
     (let end_id = (if start_id + chunk_size > pc then pc else start_id + chunk_size)
      in if queue_id < nr
         then (case create_processes pc chunk_size nr (Suc queue_id) rest of
                 Inl e \<Rightarrow> Inl e
               | Inr processes \<Rightarrow> Inr ((queue_id, start_id, end_id) # processes))
         else Inl IndexError)"

definition init_processes :: "nat \<Rightarrow> nat \<Rightarrow> error + (nat \<times> nat \<times> nat) list" where
  "init_processes pc nr =
     (if nr = 0 then Inl ZeroDivisionError
      else (let chunk_size = pc div nr
            in case py_range 0 pc chunk_size of
                 Inl e \<Rightarrow> Inl e
               | Inr starts \<Rightarrow> create_processes pc chunk_size nr 0 starts))"

text \<open>
  The attributes of the \<open>auv_pf\<close> object; \<open>particles\<close> is \<open>None\<close> as long as nothing
  assigns \<open>self.particles\<close>. \<open>in_queues\<close> holds, per worker, the tasks put
  on its queue so far, oldest first (the worker takes them from the front in its own
  process; a \<open>put\<close> that waits for room in a full queue is not modelled); \<open>avg_pub\<close>
  collects what was published on the average-pose topic.
\<close>

record ('o, 'm, 'r, 'q) auv_pf =
  pc :: nat
  nr_of_processes :: nat
  time :: "real option"
  old_time :: "real option"
  motion_prediction_params :: "('o stamped \<times> real) list"
  latest_mbes :: "'m stamped"
  prev_mbes :: "'m stamped"
  in_queues :: "('r \<times> ('o stamped \<times> real) list) list list"
  particles :: "particle list option"
  avg_pose :: "'q pose_stamped"
  avg_pub :: "'q pose_stamped list"

subsection \<open>The callbacks\<close>

definition mbes_callback :: "('o, 'm, 'r, 'q) auv_pf \<Rightarrow> 'm stamped \<Rightarrow> ('o, 'm, 'r, 'q) auv_pf" where
  "mbes_callback self msg = self\<lparr>latest_mbes := msg\<rparr>"

text \<open>
  \<open>numpy.concatenate((a1, a2, ...), axis=0)\<close> takes the sequence of arrays as its first
  argument and the axis as its second. The script calls
  \<open>np.concatenate(weights, output[0])\<close> and \<open>np.concatenate(ids, output[1])\<close>: the
  accumulated one-dimensional array stands where the sequence belongs (its elements are
  zero-dimensional), and the worker's partial result stands where the axis belongs. numpy
  raises TypeError for an axis that is a float array or a list, and ValueError when asked
  to concatenate no array or zero-dimensional ones.
\<close>

datatype axis_arg = AxisInt int | AxisArray "real list" | AxisList "nat list"

fun np_concatenate :: "real list \<Rightarrow> axis_arg \<Rightarrow> error + real list" where
  "np_concatenate arrays (AxisArray a) = Inl TypeError"
| "np_concatenate arrays (AxisList a) = Inl TypeError"
| "np_concatenate arrays (AxisInt a) = Inl ValueError"

text \<open>
  The \<open>while counter < self.nr_of_processes\<close> loop; \<open>outs\<close> are the responses that
  arrive on \<open>self.out_queue\<close>, in order of arrival.
\<close>

fun collect ::
  "nat \<Rightarrow> nat \<Rightarrow> real list \<Rightarrow> real list \<Rightarrow> (real list \<times> nat list) list \<Rightarrow> error + (real list \<times> real list)" where
  "collect nr counter weights ids [] =
     (if counter < nr then Inl Blocked else Inr (weights, ids))"
| "collect nr counter weights ids (output # outs) =
     (if counter < nr
      then (case np_concatenate weights (AxisArray (fst output)) of
              Inl e \<Rightarrow> Inl e
            | Inr weights' \<Rightarrow>
                (case np_concatenate ids (AxisList (snd output)) of
                   Inl e \<Rightarrow> Inl e
                 | Inr ids' \<Rightarrow> collect nr (counter + 1) weights' ids' outs))
      else Inr (weights, ids))"

text \<open>
  \<open>odom_callback\<close>. \<open>pcloud2ranges\<close> is in \<open>auv_particle\<close> and is a parameter. The result
  is the exception that ended the callback (if any) and the object afterwards. A falsy
  \<open>self.old_time\<close> is \<open>None\<close> or \<open>0.0\<close>.
\<close>

definition odom_callback ::
  "('m stamped \<Rightarrow> 'o stamped \<Rightarrow> 'r) \<Rightarrow> (nat list \<Rightarrow> nat list) \<Rightarrow> (npfloat list \<Rightarrow> nat list)
     \<Rightarrow> (nat \<Rightarrow> real list \<Rightarrow> particle \<Rightarrow> particle) \<Rightarrow> (real list \<times> nat list) list
     \<Rightarrow> ('o, 'm, 'r, 'q) auv_pf \<Rightarrow> 'o stamped \<Rightarrow> error option \<times> ('o, 'm, 'r, 'q) auv_pf" where
  "odom_callback pcloud2ranges set_order residual_resample add_noise outs self odom_msg =
     (let s1 = self\<lparr>time := Some (stamp odom_msg)\<rparr>
      in case old_time s1 of
           None \<Rightarrow> (None, s1\<lparr>old_time := time s1\<rparr>)
         | Some t0 \<Rightarrow>
             if t0 \<noteq> 0 \<and> stamp odom_msg > t0
             then (let dt = stamp odom_msg - t0;
                       s2 = s1\<lparr>motion_prediction_params :=
                                 motion_prediction_params s1 @ [(odom_msg, dt)]\<rparr>
                   in if stamp (latest_mbes s2) > stamp (prev_mbes s2)
                      then (let s3 = s2\<lparr>prev_mbes := latest_mbes s2\<rparr>;
                                mbes_ranges = pcloud2ranges (latest_mbes s3) odom_msg;
                                q_input = (mbes_ranges, motion_prediction_params s3);
                                s4 = s3\<lparr>in_queues := map (\<lambda>q. q @ [q_input]) (in_queues s3)\<rparr>
                            in case collect (nr_of_processes s4) 0 [] [] outs of
                                 Inl e \<Rightarrow> (Some e, s4)
                               | Inr (weights, ids) \<Rightarrow>
                                   (let r = resample set_order residual_resample add_noise
                                              (pc s4) (particles s4) (map Fin weights);
                                        s5 = s4\<lparr>particles := particles_after r\<rparr>
                                    in case raised r of
                                         Some e \<Rightarrow> (Some e, s5)
                                       | None \<Rightarrow> (None, s5\<lparr>old_time := time s5\<rparr>)))
                      else (None, s2\<lparr>old_time := time s2\<rparr>))
             else (None, s1\<lparr>old_time := time s1\<rparr>))"

subsection \<open>\<open>average_pose\<close>\<close>

text \<open>One row of \<open>pose_list\<close>: \<open>[x, y, z, roll, pitch, yaw]\<close>.\<close>

type_synonym pose_vec = "real \<times> real \<times> real \<times> real \<times> real \<times> real"

definition mean :: "real list \<Rightarrow> real" where
  "mean xs = sum_list xs / real (length xs)"

definition np_min :: "real list \<Rightarrow> real" where
  "np_min xs = fold min (tl xs) (hd xs)"

text \<open>
  \<open>average_pose\<close>; \<open>now\<close> is what \<open>rospy.Time.now()\<close> returns when the stamp is set.
  For an empty \<open>pose_list\<close> the mean is the scalar \<open>nan\<close> and \<open>ave_pose[0]\<close> raises
  IndexError.
\<close>

definition average_pose ::
  "(real \<Rightarrow> real \<Rightarrow> real \<Rightarrow> 'q) \<Rightarrow> real \<Rightarrow> pose_vec list \<Rightarrow> ('o, 'm, 'r, 'q) auv_pf
     \<Rightarrow> error option \<times> ('o, 'm, 'r, 'q) auv_pf" where
  "average_pose quaternion_from_euler now pose_list self =
     (if pose_list = [] then (Some IndexError, self)
      else (let ave_pose0 = mean (map (\<lambda>(x, y, z, r, p, yw). x) pose_list);
                ave_pose1 = mean (map (\<lambda>(x, y, z, r, p, yw). y) pose_list);
                ave_pose2 = mean (map (\<lambda>(x, y, z, r, p, yw). z) pose_list);
                roll = mean (map (\<lambda>(x, y, z, r, p, yw). r) pose_list);
                pitch = mean (map (\<lambda>(x, y, z, r, p, yw). p) pose_list);
                yaws = map (\<lambda>(x, y, z, r, p, yw). yw) pose_list;
                yaws' = (if np_min (map abs yaws) > pi / 2
                         then map (\<lambda>v. if v < 0 then v + 2 * pi else v) yaws
                         else yaws);
                yaw = mean yaws';
                msg = (avg_pose self)\<lparr>pose_position_x := ave_pose0,
                        pose_position_y := ave_pose1, pose_position_z := ave_pose2,
                        pose_orientation := quaternion_from_euler roll pitch yaw,
                        header_stamp := now\<rparr>
            in (None, self\<lparr>avg_pose := msg, avg_pub := avg_pub self @ [msg]\<rparr>)))"

section \<open>Auxiliary definitions for the statements\<close>

text \<open>The array \<open>ps\<close> with \<open>f\<close> applied to the slots \<open>i, ..., i + n - 1\<close>.\<close>

definition on_range :: "(particle \<Rightarrow> particle) \<Rightarrow> nat \<Rightarrow> nat \<Rightarrow> particle list \<Rightarrow> particle list" where
  "on_range f i n ps = map (\<lambda>j. if i \<le> j \<and> j < i + n then f (ps ! j) else ps ! j) [0..<length ps]"

text \<open>Two particles for the examples.\<close>

definition p0 :: particle where
  "p0 = \<lparr>position_x = 1, position_y = 2, position_z = 3, orientation_x = 0,
         orientation_y = 0, orientation_z = 0, orientation_w = 1, w = 5\<rparr>"

definition p1 :: particle where
  "p1 = \<lparr>position_x = 7, position_y = 8, position_z = 9, orientation_x = 1,
         orientation_y = 0, orientation_z = 0, orientation_w = 0, w = 4\<rparr>"

text \<open>The seven pose fields of a particle.\<close>

definition pose_of :: "particle \<Rightarrow> real \<times> real \<times> real \<times> real \<times> real \<times> real \<times> real" where
  "pose_of p = (position_x p, position_y p, position_z p,
                orientation_x p, orientation_y p, orientation_z p, orientation_w p)"

text \<open>
  The yaw of the aggregated pose in the words of the specification: if the minimum
  absolute yaw exceeds \<open>\<pi>/2\<close>, every negative yaw is increased by \<open>2\<pi>\<close> before the
  arithmetic mean is taken; otherwise the mean is taken directly.
\<close>

definition circular_yaw :: "real list \<Rightarrow> real" where
  "circular_yaw yaws =
     (if Min (abs ` set yaws) > pi / 2
      then (\<Sum>v\<leftarrow>yaws. if v < 0 then v + 2 * pi else v) / real (length yaws)
      else sum_list yaws / real (length yaws))"

text \<open>
  A coordinator as \<open>__init__\<close> and a first odometry message leave it: one particle, one
  worker with an empty queue, no attribute \<open>self.particles\<close>, the last odometry seen at
  time 1, and a measurement stamped 5 received and not yet used.
\<close>

definition pf0 :: "(nat, unit, unit, real \<times> real \<times> real) auv_pf" where
  "pf0 = \<lparr>pc = 1, nr_of_processes = 1, time = Some 1, old_time = Some 1,
          motion_prediction_params = [],
          latest_mbes = \<lparr>stamp = 5, payload = ()\<rparr>, prev_mbes = \<lparr>stamp = 0, payload = ()\<rparr>,
          in_queues = [[]], particles = None,
          avg_pose = \<lparr>pose_position_x = 0, pose_position_y = 0, pose_position_z = 0,
                      pose_orientation = (0, 0, 0), header_stamp = 0\<rparr>,
          avg_pub = []\<rparr>"

section \<open>The worker's output\<close>

lemma on_range_step:
  "i < length ps \<Longrightarrow> on_range f (Suc i) n (ps[i := f (ps ! i)]) = on_range f i (Suc n) ps"
  by (rule nth_equalityI) (auto simp: on_range_def nth_list_update)

lemma on_range_0: "on_range f i 0 ps = ps"
  by (rule nth_equalityI) (auto simp: on_range_def)

lemma update_loop_Inr:
  "i + length idl \<le> length ps \<Longrightarrow>
   update_loop f i idl ps ws ids =
     Inr (on_range f i (length idl) ps, ws @ map (\<lambda>j. w (f (ps ! j))) [i..<i + length idl], ids @ idl)"
proof (induction idl arbitrary: i ps ws ids)
  case Nil
  then show ?case by (simp add: on_range_0)
next
  case (Cons a idl)
  then have i: "i < length ps" by simp
  have m: "map (\<lambda>j. w (f (ps[i := f (ps ! i)] ! j))) [Suc i..<Suc (i + length idl)]
         = map (\<lambda>j. w (f (ps ! j))) [Suc i..<Suc (i + length idl)]"
    by (rule map_cong) (auto simp del: upt_Suc)
  from Cons.prems have "Suc i + length idl \<le> length (ps[i := f (ps ! i)])" by simp
  from Cons.IH[OF this] i m show ?case
    by (simp add: Let_def on_range_step upt_conv_Cons del: upt_Suc)
qed

lemma update_Inr:
  "end_id - start_id \<le> length ps \<Longrightarrow>
   update mu m ps start_id end_id =
     Inr (on_range (mu m) 0 (end_id - start_id) ps,
          (map (\<lambda>j. w (mu m (ps ! j)) + 1 / 10 ^ 30) [0..<end_id - start_id], [start_id..<end_id]))"
  using update_loop_Inr[of 0 "[start_id..<end_id]" ps "mu m" "[]" "[]"]
  by (simp add: update_def comp_def)

lemma sum_list_pos_real: "xs \<noteq> [] \<Longrightarrow> \<forall>x\<in>set xs. (0::real) < x \<Longrightarrow> 0 < sum_list xs"
  by (induction xs) (auto intro: add_pos_nonneg sum_list_nonneg less_imp_le)

lemma np_sum_Fin_aux: "foldl np_add (Fin a) (map Fin xs) = Fin (a + sum_list xs)"
  by (induction xs arbitrary: a) (simp_all add: add.assoc)

lemma np_sum_Fin: "np_sum (map Fin xs) = Fin (sum_list xs)"
  by (simp add: np_sum_def np_sum_Fin_aux)

text \<open>
  Claim C9. A worker holds the slice \<open>particles[start_id:end_id]\<close>, so its array has
  \<open>end_id - start_id\<close> entries. If the measurement score that \<open>meas_update\<close> stores is
  never negative, \<open>update\<close> returns without exception; the ids it emits are
  \<open>start_id, ..., end_id - 1\<close> in order; there are as many weights as ids; the weight
  at place \<open>i\<close> is the score of the particle at place \<open>i\<close> plus \<open>1e-30\<close>, hence at least
  \<open>1e-30\<close> and strictly positive. Put together with the weights of the other workers
  (positive for the same reason), the sum by which \<open>resample\<close> divides is a finite
  number different from zero, as soon as there is one particle at all.
\<close>

theorem update_emits_positive_weights:
  assumes score: "\<forall>p. 0 \<le> w (meas_update m p)"
    and slice: "length ps = end_id - start_id"
  shows "\<exists>ps' weights.
           update meas_update m ps start_id end_id = Inr (ps', (weights, [start_id..<end_id]))
         \<and> length weights = end_id - start_id
         \<and> (\<forall>i < length weights. weights ! i = w (meas_update m (ps ! i)) + 1 / 10 ^ 30)
         \<and> (\<forall>x \<in> set weights. 1 / 10 ^ 30 \<le> x \<and> 0 < x)
         \<and> (\<forall>before after. (\<forall>v \<in> set (before @ after). 0 < v) \<and> before @ weights @ after \<noteq> []
               \<longrightarrow> (\<exists>s. np_sum (map Fin (before @ weights @ after)) = Fin s \<and> s \<noteq> 0))"
proof -
  let ?ws = "map (\<lambda>j. w (meas_update m (ps ! j)) + 1 / 10 ^ 30) [0..<end_id - start_id]"
  have u: "update meas_update m ps start_id end_id =
             Inr (on_range (meas_update m) 0 (end_id - start_id) ps, (?ws, [start_id..<end_id]))"
    using slice by (simp add: update_Inr)
  have pos: "\<forall>x \<in> set ?ws. 1 / 10 ^ 30 \<le> x \<and> 0 < x"
  proof
    fix x assume "x \<in> set ?ws"
    then obtain j where x: "x = w (meas_update m (ps ! j)) + 1 / 10 ^ 30" by auto
    have "0 \<le> w (meas_update m (ps ! j))" using score by blast
    moreover have "(0::real) < 1 / 10 ^ 30" by simp
    ultimately show "1 / 10 ^ 30 \<le> x \<and> 0 < x" using x by linarith
  qed
  have tot: "\<forall>before after. (\<forall>v \<in> set (before @ after). 0 < v) \<and> before @ ?ws @ after \<noteq> []
               \<longrightarrow> (\<exists>s. np_sum (map Fin (before @ ?ws @ after)) = Fin s \<and> s \<noteq> 0)"
  proof (intro allI impI)
    fix before after :: "real list"
    assume a: "(\<forall>v \<in> set (before @ after). 0 < v) \<and> before @ ?ws @ after \<noteq> []"
    then have "\<forall>x \<in> set (before @ ?ws @ after). 0 < x" using pos by auto
    with a have "0 < sum_list (before @ ?ws @ after)" by (intro sum_list_pos_real) blast+
    then show "\<exists>s. np_sum (map Fin (before @ ?ws @ after)) = Fin s \<and> s \<noteq> 0"
      by (simp only: np_sum_Fin) auto
  qed
  show ?thesis
    by (intro exI[of _ "on_range (meas_update m) 0 (end_id - start_id) ps"] exI[of _ ?ws] conjI u pos tot)
      simp_all
qed

theorem update_emits_positive_weights_witness:
  "(\<forall>p. 0 \<le> w ((\<lambda>m p. p\<lparr>w := 0\<rparr>) () p)) \<and> length [p0] = 1 - 0
   \<and> (\<exists>ps'. update (\<lambda>m p. p\<lparr>w := 0\<rparr>) () [p0] 0 1 = Inr (ps', ([1 / 10 ^ 30], [0])))"
proof -
  have h1: "\<forall>p. 0 \<le> w ((\<lambda>m p. p\<lparr>w := 0\<rparr>) () p)" by simp
  have h2: "length [p0] = 1 - 0" by simp
  from update_emits_positive_weights[where meas_update = "\<lambda>m p. p\<lparr>w := 0\<rparr>" and m = "()"
         and ps = "[p0]" and start_id = 0 and end_id = 1, OF h1 h2]
  obtain ps' weights where
    u: "update (\<lambda>m p. p\<lparr>w := 0\<rparr>) () [p0] 0 1 = Inr (ps', (weights, [0..<1]))"
    and l: "length weights = 1 - 0"
    and v: "\<forall>i < length weights. weights ! i = w ((\<lambda>m p. p\<lparr>w := 0\<rparr>) () ([p0] ! i)) + 1 / 10 ^ 30"
    by blast
  from l v have "weights ! 0 = 1 / 10 ^ 30" by simp
  with l have "weights = [1 / 10 ^ 30]" by (cases weights) auto
  with u h1 h2 show ?thesis by simp
qed

text \<open>
  Claim C10. After \<open>update\<close>, every particle of the worker's slice is exactly what
  \<open>meas_update\<close> left: its stored weight is the raw score. The floor \<open>1e-30\<close> is found
  in the emitted array only, whose entry is the stored weight plus the floor. In the
  example the stored weight is exactly zero while the emitted one is \<open>1e-30\<close>.
\<close>

theorem update_keeps_raw_score:
  assumes slice: "length ps = end_id - start_id"
  shows "\<exists>ps' weights ids.
           update meas_update m ps start_id end_id = Inr (ps', (weights, ids))
         \<and> length ps' = length ps \<and> length weights = length ps
         \<and> (\<forall>i < length ps. ps' ! i = meas_update m (ps ! i)
                \<and> weights ! i = w (ps' ! i) + 1 / 10 ^ 30)"
proof -
  have "update meas_update m ps start_id end_id =
          Inr (on_range (meas_update m) 0 (end_id - start_id) ps,
               (map (\<lambda>j. w (meas_update m (ps ! j)) + 1 / 10 ^ 30) [0..<end_id - start_id],
                [start_id..<end_id]))"
    using slice by (simp add: update_Inr)
  moreover have "\<forall>i < length ps.
      on_range (meas_update m) 0 (end_id - start_id) ps ! i = meas_update m (ps ! i)"
    using slice by (simp add: on_range_def)
  ultimately show ?thesis using slice by (simp add: on_range_def)
qed

theorem update_keeps_raw_score_witness:
  "length [p0] = 1 - 0
   \<and> (\<exists>ps'. update (\<lambda>m p. p\<lparr>w := 0\<rparr>) () [p0] 0 1 = Inr (ps', ([1 / 10 ^ 30], [0]))
           \<and> w (ps' ! 0) = 0)"
proof -
  have h: "length [p0] = 1 - 0" by simp
  from update_keeps_raw_score[OF h, of "\<lambda>m p. p\<lparr>w := 0\<rparr>" "()"]
  obtain ps' weights ids where
    u: "update (\<lambda>m p. p\<lparr>w := 0\<rparr>) () [p0] 0 1 = Inr (ps', (weights, ids))"
    and s: "ps' ! 0 = p0\<lparr>w := 0\<rparr>"
    by auto
  have e: "update (\<lambda>m p. p\<lparr>w := 0\<rparr>) () [p0] 0 1 = Inr ([p0\<lparr>w := 0\<rparr>], ([1 / 10 ^ 30], [0]))"
    by (simp add: update_def)
  from u e s show ?thesis by simp
qed

section \<open>The partitions made by \<open>__init__\<close>\<close>

lemma range_from_multiples:
  "0 < c \<Longrightarrow> k \<le> n \<Longrightarrow> range_from (k * c) (n * c) c = map (\<lambda>j. j * c) [k..<n]"
proof (induction "n - k" arbitrary: k)
  case 0
  then show ?case by (simp add: range_from.simps)
next
  case (Suc d)
  then have kn: "k < n" and d: "d = n - Suc k" by simp_all
  from kn Suc.prems have lt: "k * c < n * c" by simp
  have "range_from (k * c) (n * c) c = k * c # range_from (Suc k * c) (n * c) c"
    using lt Suc.prems by (subst range_from.simps) (simp add: add.commute)
  also have "range_from (Suc k * c) (n * c) c = map (\<lambda>j. j * c) [Suc k..<n]"
    using Suc.hyps(1)[OF d] Suc.prems kn by simp
  finally show ?case using kn by (simp add: upt_conv_Cons)
qed

lemma create_processes_Inr:
  "q + length starts \<le> nr \<Longrightarrow> \<forall>s \<in> set starts. s + c \<le> N \<Longrightarrow>
   create_processes N c nr q starts = Inr (map (\<lambda>(i, s). (i, s, s + c)) (enumerate q starts))"
  by (induction starts arbitrary: q) (auto simp: Let_def)

lemma create_processes_Inl:
  "q \<le> nr \<Longrightarrow> nr < q + length starts \<Longrightarrow> create_processes N c nr q starts = Inl IndexError"
  by (induction starts arbitrary: q) (auto simp: Let_def split: sum.splits)

lemma concat_chunks: "concat (map (\<lambda>j. [j * c..<j * c + c]) [0..<n]) = [0..<n * c]"
proof (induction n)
  case 0
  then show ?case by simp
next
  case (Suc n)
  have "[0..<n * c + c] = [0..<n * c] @ [n * c..<n * c + c]"
    by (metis le_add1 upt_add_eq_append add_0)
  with Suc show ?case by (simp add: add.commute)
qed

lemma init_processes_dvd:
  assumes "nr dvd N" "0 < N"
  shows "init_processes N nr = Inr (map (\<lambda>j. (j, j * (N div nr), j * (N div nr) + N div nr)) [0..<nr])"
proof -
  let ?c = "N div nr"
  from assms have nr: "0 < nr" by (auto intro: Nat.gr0I)
  from assms have N: "N = nr * ?c" by simp
  with assms have c: "0 < ?c" by (metis mult_0_right not_gr_zero)
  have r: "range_from 0 N ?c = map (\<lambda>j. j * ?c) [0..<nr]"
    using range_from_multiples[OF c, of 0 nr] N by (simp add: mult.commute)
  have b: "\<forall>s \<in> set (map (\<lambda>j. j * ?c) [0..<nr]). s + ?c \<le> N"
  proof
    fix s assume "s \<in> set (map (\<lambda>j. j * ?c) [0..<nr])"
    then obtain j where j: "j < nr" "s = j * ?c" by auto
    then have "Suc j * ?c \<le> nr * ?c" by (intro mult_le_mono1) simp
    with j N show "s + ?c \<le> N" by (simp add: add.commute)
  qed
  have e: "map (\<lambda>(i, s). (i, s, s + ?c)) (enumerate 0 (map (\<lambda>j. j * ?c) [0..<nr]))
         = map (\<lambda>j. (j, j * ?c, j * ?c + ?c)) [0..<nr]"
    by (rule nth_equalityI) (simp_all add: nth_enumerate_eq)
  have "create_processes N ?c nr 0 (map (\<lambda>j. j * ?c) [0..<nr])
        = Inr (map (\<lambda>(i, s). (i, s, s + ?c)) (enumerate 0 (map (\<lambda>j. j * ?c) [0..<nr])))"
    using b by (intro create_processes_Inr) simp_all
  with e r nr c show ?thesis by (simp add: init_processes_def py_range_def Let_def)
qed

lemma range_from_length:
  "0 < c \<Longrightarrow> s + k * c < N \<Longrightarrow> k < length (range_from s N c)"
proof (induction k arbitrary: s)
  case 0
  then show ?case by (subst range_from.simps) simp
next
  case (Suc k)
  then have "(s + c) + k * c < N" by (simp add: add.assoc)
  from Suc.IH[OF Suc.prems(1) this] have "k < length (range_from (s + c) N c)" .
  moreover have "s < N" using Suc.prems by simp
  ultimately show ?case using Suc.prems(1) by (subst range_from.simps) simp
qed

text \<open>
  Whenever the particle count is not a multiple of the number of processes (and
  \<open>chunk_size\<close> is not zero), the range has more starts than there are queues: the
  iteration that would clamp \<open>end_id\<close> to \<open>self.pc\<close> is the one that raises.
\<close>

lemma init_processes_remainder:
  assumes "0 < nr" and "0 < N div nr" and "\<not> nr dvd N"
  shows "init_processes N nr = Inl IndexError"
proof -
  let ?c = "N div nr"
  have "N mod nr \<noteq> 0" using assms(3) by (simp add: dvd_eq_mod_eq_0)
  moreover have "nr * ?c + N mod nr = N" by simp
  ultimately have "nr * ?c < N" by linarith
  then have "0 + nr * ?c < N" by simp
  from range_from_length[OF assms(2) this] have "nr < 0 + length (range_from 0 N ?c)" by simp
  then have "create_processes N ?c nr 0 (range_from 0 N ?c) = Inl IndexError"
    by (intro create_processes_Inl) simp_all
  then show ?thesis using assms by (simp add: init_processes_def py_range_def Let_def)
qed

text \<open>
  Claim C7, evaluated on the code for 10 particles and 3 processes. \<open>chunk_size\<close> is 3,
  the range has the four starts 0, 3, 6, 9, and the fourth iteration, the one in which
  \<open>end_id\<close> is clamped to \<open>self.pc\<close>, indexes \<open>self.in_queues[3]\<close> in a list of three
  queues. \<open>__init__\<close> raises IndexError before any process is started, so no partition
  is assigned to any worker.
\<close>

theorem init_processes_fails: "init_processes 10 3 = Inl IndexError"
  by code_simp

text \<open>
  When the number of processes divides the particle count \<open>N > 0\<close>, \<open>__init__\<close> creates
  one process per queue; the id ranges of the processes, taken in order, are exactly
  \<open>0, ..., N - 1\<close>, and every range has \<open>N div nr\<close> ids.
\<close>

lemma init_processes_tile:
  assumes "nr dvd N" and "0 < N"
  shows "\<exists>processes. init_processes N nr = Inr processes
      \<and> map fst processes = [0..<nr]
      \<and> concat (map (\<lambda>(q, s, e). [s..<e]) processes) = [0..<N]
      \<and> (\<Union>(q, s, e) \<in> set processes. {s..<e}) = {0..<N}
      \<and> distinct (concat (map (\<lambda>(q, s, e). [s..<e]) processes))
      \<and> (\<forall>(q, s, e) \<in> set processes. s \<le> e \<and> e - s = N div nr)"
proof -
  let ?c = "N div nr"
  let ?P = "map (\<lambda>j. (j, j * ?c, j * ?c + ?c)) [0..<nr]"
  have i: "init_processes N nr = Inr ?P" using assms by (rule init_processes_dvd)
  have N: "nr * ?c = N" using assms by simp
  have f: "map fst ?P = [0..<nr]" by (simp add: comp_def)
  have c: "concat (map (\<lambda>(q, s, e). [s..<e]) ?P) = [0..<N]"
    using concat_chunks[of ?c nr] N by (simp add: comp_def)
  have "(\<Union>(q, s, e) \<in> set ?P. {s..<e}) = set (concat (map (\<lambda>(q, s, e). [s..<e]) ?P))"
    by auto
  then have u: "(\<Union>(q, s, e) \<in> set ?P. {s..<e}) = {0..<N}" by (simp only: c) simp
  have d: "distinct (concat (map (\<lambda>(q, s, e). [s..<e]) ?P))" by (simp only: c) simp
  have s: "\<forall>(q, s, e) \<in> set ?P. s \<le> e \<and> e - s = ?c" by auto
  from i f c u d s show ?thesis by blast
qed

section \<open>Redistribution after resampling\<close>

lemma pose_of_copy_pose: "pose_of (copy_pose src dst) = pose_of src"
  by (simp add: pose_of_def copy_pose_def)

lemma w_copy_pose: "w (copy_pose src dst) = w dst"
  by (simp add: copy_pose_def)

lemma remove_keep_mset:
  "mset keep \<subseteq># mset xs \<Longrightarrow> \<exists>d. remove_keep keep xs = Inr d \<and> mset d = mset xs - mset keep"
proof (induction keep arbitrary: xs)
  case Nil
  then show ?case by simp
next
  case (Cons i keep)
  from Cons.prems have i: "i \<in> set xs"
    by (metis mset.simps(2) mset_subset_eq_insertD set_mset_mset)
  from Cons.prems have "mset keep \<subseteq># mset (remove1 i xs)"
    by (simp add: insert_subset_eq_iff)
  from Cons.IH[OF this] obtain d where
    "remove_keep keep (remove1 i xs) = Inr d" "mset d = mset (remove1 i xs) - mset keep" by blast
  with i show ?case by (simp add: multiset_eq_iff)
qed

lemma distinct_keep_submset:
  assumes "distinct keep" "set keep \<subseteq> set xs"
  shows "mset keep \<subseteq># mset xs"
proof (rule mset_subset_eqI)
  fix a
  show "count (mset keep) a \<le> count (mset xs) a"
  proof (cases "a \<in> set keep")
    case True
    with assms have "count (mset keep) a = 1" "a \<in> set xs"
      by (auto simp: distinct_count_atmost_1)
    then show ?thesis by (simp add: Suc_le_eq)
  next
    case False
    then have "count (mset keep) a = 0" by simp
    then show ?thesis by linarith
  qed
qed

lemma length_lost_ids:
  assumes "distinct keep" "set keep \<subseteq> {0..<N}"
  shows "length (lost_ids N keep) = N - length keep"
proof -
  have "length (filter (\<lambda>i. i \<in> set keep) [0..<N]) + length (lost_ids N keep) = length [0..<N]"
    unfolding lost_ids_def by (rule sum_length_filter_compl)
  moreover have "length (filter (\<lambda>i. i \<in> set keep) [0..<N]) = card (set (filter (\<lambda>i. i \<in> set keep) [0..<N]))"
    by (rule distinct_card[symmetric]) simp
  moreover have "set (filter (\<lambda>i. i \<in> set keep) [0..<N]) = set keep"
    using assms(2) by auto
  moreover have "card (set keep) = length keep" using assms(1) by (rule distinct_card)
  ultimately show ?thesis by simp
qed

lemma reassign_loop_ok:
  assumes "\<forall>i\<in>set idx. i < length lost \<and> i < length dupes \<and> lost ! i < length ps \<and> dupes ! i < length ps"
    and "distinct (map ((!) lost) idx)"
    and "\<forall>i\<in>set idx. \<forall>k\<in>set idx. lost ! i \<noteq> dupes ! k"
  shows "\<exists>ps'. reassign_loop idx lost dupes (Some ps) = (None, Some ps') \<and> length ps' = length ps
      \<and> (\<forall>i\<in>set idx. ps' ! (lost ! i) = copy_pose (ps ! (dupes ! i)) (ps ! (lost ! i)))
      \<and> (\<forall>j. j \<notin> (\<lambda>i. lost ! i) ` set idx \<longrightarrow> ps' ! j = ps ! j)"
  using assms
proof (induction idx arbitrary: ps)
  case Nil
  then show ?case by simp
next
  case (Cons i rest)
  let ?ps1 = "ps[lost ! i := copy_pose (ps ! (dupes ! i)) (ps ! (lost ! i))]"
  have p1: "\<forall>k\<in>set rest. k < length lost \<and> k < length dupes \<and> lost ! k < length ?ps1 \<and> dupes ! k < length ?ps1"
    using Cons.prems(1) by simp
  have p2: "distinct (map ((!) lost) rest)" using Cons.prems(2) by simp
  have p3: "\<forall>a\<in>set rest. \<forall>k\<in>set rest. lost ! a \<noteq> dupes ! k" using Cons.prems(3) by simp
  from Cons.IH[OF p1 p2 p3] obtain ps' where
    r: "reassign_loop rest lost dupes (Some ?ps1) = (None, Some ps')"
    and l: "length ps' = length ?ps1"
    and c: "\<forall>k\<in>set rest. ps' ! (lost ! k) = copy_pose (?ps1 ! (dupes ! k)) (?ps1 ! (lost ! k))"
    and o: "\<forall>j. j \<notin> (\<lambda>k. lost ! k) ` set rest \<longrightarrow> ps' ! j = ?ps1 ! j"
    by blast
  have notin: "lost ! i \<notin> (\<lambda>k. lost ! k) ` set rest" using Cons.prems(2) by auto
  have i_in: "lost ! i < length ps" "dupes ! i < length ps" "i < length dupes"
    using Cons.prems(1) by simp_all
  have run: "reassign_loop (i # rest) lost dupes (Some ps) = (None, Some ps')"
    using r i_in by simp
  have c_i: "ps' ! (lost ! i) = copy_pose (ps ! (dupes ! i)) (ps ! (lost ! i))"
    using o notin i_in by simp
  have c_rest: "\<forall>k\<in>set rest. ps' ! (lost ! k) = copy_pose (ps ! (dupes ! k)) (ps ! (lost ! k))"
  proof
    fix k assume k: "k \<in> set rest"
    have "dupes ! k \<noteq> lost ! i" using Cons.prems(3) k by (metis list.set_intros(1,2))
    moreover have "lost ! k \<noteq> lost ! i" using notin k by (metis image_eqI)
    ultimately show "ps' ! (lost ! k) = copy_pose (ps ! (dupes ! k)) (ps ! (lost ! k))"
      using c k by simp
  qed
  have oth: "\<forall>j. j \<notin> (\<lambda>k. lost ! k) ` set (i # rest) \<longrightarrow> ps' ! j = ps ! j"
    using o by auto
  from run l c_i c_rest oth show ?case by auto
qed

lemma map_nth_upt_take: "n \<le> length xs \<Longrightarrow> map ((!) xs) [0..<n] = take n xs"
  by (rule nth_equalityI) simp_all

text \<open>
  What the bookkeeping of \<open>resample\<close> and \<open>reassign_poses\<close> do where the attribute does
  exist and holds \<open>N\<close> particles. Let \<open>indices\<close> be \<open>N\<close> resampled ids below \<open>N\<close>, \<open>keep\<close>
  the distinct ids of \<open>indices\<close> in whatever order the set enumerates them, and \<open>lost\<close>
  the ids below \<open>N\<close> that are not in \<open>keep\<close>. Then the removal loop raises nothing and
  leaves \<open>dupes\<close>, the multiset \<open>indices\<close> minus one occurrence of each id of \<open>keep\<close>,
  with as many entries as \<open>lost\<close>; \<open>reassign_poses\<close> raises nothing, and afterwards the
  particle at \<open>lost[i]\<close> has the seven pose fields that the particle at \<open>dupes[i]\<close> had
  before the loop and still has at the moment of the \<open>i\<close>-th copy (in the store after
  the first \<open>i\<close> iterations). Particles that are not lost are untouched.
\<close>

lemma reassign_on_store:
  assumes len: "length indices = N" and rng: "set indices \<subseteq> {0..<N}"
    and store: "length ps = N"
    and keep: "distinct keep" "set keep = set indices"
  shows "\<exists>dupes ps'. remove_keep keep indices = Inr dupes
        \<and> mset dupes = mset indices - mset keep
        \<and> length dupes = length (lost_ids N keep)
        \<and> reassign_poses (lost_ids N keep) dupes (Some ps) = (None, Some ps')
        \<and> length ps' = N
        \<and> (\<forall>i < length (lost_ids N keep).
              pose_of (ps' ! (lost_ids N keep ! i)) = pose_of (ps ! (dupes ! i))
            \<and> (\<exists>qs. reassign_loop [0..<i] (lost_ids N keep) dupes (Some ps) = (None, Some qs)
                    \<and> pose_of (qs ! (dupes ! i)) = pose_of (ps ! (dupes ! i))))
        \<and> (\<forall>j < N. j \<notin> set (lost_ids N keep) \<longrightarrow> ps' ! j = ps ! j)"
proof -
  let ?lost = "lost_ids N keep"
  have sub: "mset keep \<subseteq># mset indices"
    using keep by (intro distinct_keep_submset) simp_all
  from remove_keep_mset[OF sub] obtain dupes where
    rk: "remove_keep keep indices = Inr dupes" and ms: "mset dupes = mset indices - mset keep"
    by blast
  have ll: "length ?lost = N - length keep"
    using keep rng by (intro length_lost_ids) simp_all
  have "size (mset dupes) = size (mset indices) - size (mset keep)"
    using ms sub by (simp add: size_Diff_submset)
  then have ld: "length dupes = length ?lost" using ll len by simp
  have sd: "set dupes \<subseteq> set indices"
    using ms by (metis in_diffD set_mset_mset subsetI)
  have dl: "distinct ?lost" by (simp add: lost_ids_def)
  have sl: "set ?lost \<inter> set indices = {}" using keep by (auto simp: lost_ids_def)
  have bl: "\<forall>x \<in> set ?lost. x < N" by (auto simp: lost_ids_def)
  have loop: "\<And>n. n \<le> length ?lost \<Longrightarrow>
      \<exists>qs. reassign_loop [0..<n] ?lost dupes (Some ps) = (None, Some qs) \<and> length qs = length ps
        \<and> (\<forall>i\<in>set [0..<n]. qs ! (?lost ! i) = copy_pose (ps ! (dupes ! i)) (ps ! (?lost ! i)))
        \<and> (\<forall>j. j \<notin> (\<lambda>i. ?lost ! i) ` set [0..<n] \<longrightarrow> qs ! j = ps ! j)"
  proof -
    fix n assume n: "n \<le> length ?lost"
    have a1: "\<forall>i\<in>set [0..<n]. i < length ?lost \<and> i < length dupes
                \<and> ?lost ! i < length ps \<and> dupes ! i < length ps"
    proof
      fix i assume "i \<in> set [0..<n]"
      then have i: "i < length ?lost" using n by simp
      then have "?lost ! i \<in> set ?lost" "dupes ! i \<in> set dupes" using ld by simp_all
      then have "?lost ! i < N" "dupes ! i < N" using bl sd rng by auto
      with i ld store show "i < length ?lost \<and> i < length dupes
                \<and> ?lost ! i < length ps \<and> dupes ! i < length ps" by simp
    qed
    have a2: "distinct (map ((!) ?lost) [0..<n])"
      using dl n by (simp add: map_nth_upt_take)
    have a3: "\<forall>i\<in>set [0..<n]. \<forall>k\<in>set [0..<n]. ?lost ! i \<noteq> dupes ! k"
    proof (intro ballI)
      fix i k assume "i \<in> set [0..<n]" "k \<in> set [0..<n]"
      then have "?lost ! i \<in> set ?lost" "dupes ! k \<in> set dupes" using n ld by simp_all
      then show "?lost ! i \<noteq> dupes ! k" using sl sd by auto
    qed
    show "\<exists>qs. reassign_loop [0..<n] ?lost dupes (Some ps) = (None, Some qs) \<and> length qs = length ps
        \<and> (\<forall>i\<in>set [0..<n]. qs ! (?lost ! i) = copy_pose (ps ! (dupes ! i)) (ps ! (?lost ! i)))
        \<and> (\<forall>j. j \<notin> (\<lambda>i. ?lost ! i) ` set [0..<n] \<longrightarrow> qs ! j = ps ! j)"
      by (rule reassign_loop_ok[OF a1 a2 a3])
  qed
  from loop[of "length ?lost"] obtain ps' where
    r: "reassign_loop [0..<length ?lost] ?lost dupes (Some ps) = (None, Some ps')"
    and lp: "length ps' = length ps"
    and cp: "\<forall>i\<in>set [0..<length ?lost].
               ps' ! (?lost ! i) = copy_pose (ps ! (dupes ! i)) (ps ! (?lost ! i))"
    and ot: "\<forall>j. j \<notin> (\<lambda>i. ?lost ! i) ` set [0..<length ?lost] \<longrightarrow> ps' ! j = ps ! j"
    by auto
  have c1: "\<forall>i < length ?lost. pose_of (ps' ! (?lost ! i)) = pose_of (ps ! (dupes ! i))
            \<and> (\<exists>qs. reassign_loop [0..<i] ?lost dupes (Some ps) = (None, Some qs)
                    \<and> pose_of (qs ! (dupes ! i)) = pose_of (ps ! (dupes ! i)))"
  proof (intro allI impI conjI)
    fix i assume i: "i < length ?lost"
    then show "pose_of (ps' ! (?lost ! i)) = pose_of (ps ! (dupes ! i))"
      using cp by (simp add: pose_of_copy_pose)
    from i loop[of i] obtain qs where
      q: "reassign_loop [0..<i] ?lost dupes (Some ps) = (None, Some qs)"
      and qo: "\<forall>j. j \<notin> (\<lambda>k. ?lost ! k) ` set [0..<i] \<longrightarrow> qs ! j = ps ! j"
      by auto
    have "dupes ! i \<in> set dupes" using i ld by simp
    then have "dupes ! i \<notin> set ?lost" using sd sl by auto
    then have "dupes ! i \<notin> (\<lambda>k. ?lost ! k) ` set [0..<i]" using i by auto
    with qo have "qs ! (dupes ! i) = ps ! (dupes ! i)" by blast
    with q show "\<exists>qs. reassign_loop [0..<i] ?lost dupes (Some ps) = (None, Some qs)
                    \<and> pose_of (qs ! (dupes ! i)) = pose_of (ps ! (dupes ! i))" by simp
  qed
  have c2: "\<forall>j < N. j \<notin> set ?lost \<longrightarrow> ps' ! j = ps ! j"
  proof (intro allI impI)
    fix j assume "j \<notin> set ?lost"
    then have "j \<notin> (\<lambda>i. ?lost ! i) ` set [0..<length ?lost]" by auto
    with ot show "ps' ! j = ps ! j" by blast
  qed
  from rk ms ld r lp store c1 c2 show ?thesis
    by (auto simp: reassign_poses_def)
qed

text \<open>
  The resampling branch wires these steps together: with an existing store, the noise
  loop starts from the store that \<open>reassign_poses\<close> left.
\<close>

lemma resample_branch_on_store:
  assumes "length indices = N" and "set indices \<subseteq> {0..<N}" and "length ps = N"
    and "distinct (set_order indices)" and "set (set_order indices) = set indices"
  shows "\<exists>dupes ps'. remove_keep (set_order indices) indices = Inr dupes
        \<and> reassign_poses (lost_ids N (set_order indices)) dupes (Some ps) = (None, Some ps')
        \<and> resample_branch set_order add_noise N (Some ps) indices
            = add_noise_loop add_noise [0..<N] (Some ps')"
proof -
  from reassign_on_store[OF assms] obtain dupes ps' where
    "remove_keep (set_order indices) indices = Inr dupes"
    "reassign_poses (lost_ids N (set_order indices)) dupes (Some ps) = (None, Some ps')"
    by blast
  then show ?thesis by (simp add: resample_branch_def)
qed

text \<open>Without the attribute, each of the two loops raises at its first iteration.\<close>

lemma reassign_poses_no_attribute:
  assumes "lost \<noteq> []"
  shows "reassign_poses lost dupes None = (Some AttributeError, None)"
proof -
  have "[0..<length lost] = 0 # [1..<length lost]"
    using assms by (simp add: upt_conv_Cons)
  then show ?thesis by (simp add: reassign_poses_def)
qed

lemma add_noise_loop_no_attribute:
  "0 < N \<Longrightarrow> add_noise_loop add_noise [0..<N] None = (Some AttributeError, None)"
  by (simp add: upt_conv_Cons)

lemma resample_branch_no_attribute:
  assumes "0 < N" and "remove_keep (set_order indices) indices = Inr dupes"
  shows "resample_branch set_order add_noise N None indices = (Some AttributeError, None)"
proof (cases "lost_ids N (set_order indices) = []")
  case True
  then have "reassign_poses (lost_ids N (set_order indices)) dupes None = (None, None)"
    by (simp add: reassign_poses_def)
  with assms show ?thesis
    by (simp add: resample_branch_def add_noise_loop_no_attribute)
next
  case False
  with assms show ?thesis
    by (simp add: resample_branch_def reassign_poses_no_attribute)
qed

text \<open>
  Claim C5, evaluated on the code for three particles, the normalized weights
  \<open>1, 0, 0\<close> and the resampled ids \<open>0, 0, 2\<close>. The bookkeeping gives \<open>keep = [0, 2]\<close>,
  \<open>dupes = [0]\<close> and \<open>lost = [1]\<close>, one source for the one lost slot. The first
  assignment of \<open>reassign_poses\<close> then reads \<open>self.particles\<close>, which no code of the class
  assigns: the call raises AttributeError, \<open>resample\<close> ends with that exception, and no
  pose is copied.
\<close>

theorem resample_without_particles:
  "remove_keep (remdups [0, 0, 2]) [0, 0, 2] = Inr [0]
   \<and> lost_ids 3 (remdups [0, 0, 2]) = [1]
   \<and> reassign_poses [1] [0] None = (Some AttributeError, None)
   \<and> resampled (resample remdups (\<lambda>v. [0, 0, 2]) (\<lambda>i l p. p) 3 None [Fin 1, Fin 0, Fin 0])
   \<and> raised (resample remdups (\<lambda>v. [0, 0, 2]) (\<lambda>i l p. p) 3 None [Fin 1, Fin 0, Fin 0])
       = Some AttributeError
   \<and> particles_after (resample remdups (\<lambda>v. [0, 0, 2]) (\<lambda>i l p. p) 3 None [Fin 1, Fin 0, Fin 0])
       = None"
proof -
  have rk: "remove_keep (remdups [0, 0, 2]) [0, 0, 2 :: nat] = Inr [0]" by simp
  have lo: "lost_ids 3 (remdups [0, 0, 2]) = [1]" by code_simp
  have ra: "reassign_poses [1] [0] None = (Some AttributeError, None)"
    by (simp add: reassign_poses_def)
  have rb: "resample_branch remdups (\<lambda>i l p. p) 3 None [0, 0, 2] = (Some AttributeError, None)"
    unfolding resample_branch_def Let_def lo rk using ra by simp
  have rs: "resample remdups (\<lambda>v. [0, 0, 2]) (\<lambda>i l p. p) 3 None [Fin 1, Fin 0, Fin 0]
      = \<lparr>logged = [], normalized = [Fin 1, Fin 0, Fin 0], N_eff = Fin 1, resampled = True,
         raised = Some AttributeError, particles_after = None\<rparr>"
    by (simp add: resample_def np_sum_def rb Let_def)
  show ?thesis by (simp only: rk lo ra rs) simp
qed

section \<open>The degeneracy test of \<open>resample\<close>\<close>

lemma map_np_square_Fin: "map np_square (map Fin xs) = map Fin (map (\<lambda>x. x * x) xs)"
  by simp

lemma sum_squares_pos:
  assumes "sum_list ws = (1::real)"
  shows "0 < (\<Sum>x\<leftarrow>ws. x * x)"
proof -
  have nn: "0 \<le> (\<Sum>x\<leftarrow>ws. x * x)" by (rule sum_list_nonneg) auto
  have "(\<Sum>x\<leftarrow>ws. x * x) \<noteq> 0"
  proof
    assume z: "(\<Sum>x\<leftarrow>ws. x * x) = 0"
    have "\<forall>y \<in> set (map (\<lambda>x. x * x) ws). y = 0"
      using z by (subst (asm) sum_list_nonneg_eq_0_iff) auto
    then have "\<forall>x \<in> set ws. x = 0" by auto
    then have "sum_list ws = 0" by (induction ws) auto
    with assms show False by simp
  qed
  with nn show ?thesis by linarith
qed

lemma resample_normalized:
  assumes "sum_list ws = 1"
  shows "resample so rr noise n ps (map Fin ws) =
          (if 1 / (\<Sum>x\<leftarrow>ws. x * x) < real n * 0.5
           then \<lparr>logged = [], normalized = map Fin ws, N_eff = Fin (1 / (\<Sum>x\<leftarrow>ws. x * x)),
                 resampled = True,
                 raised = fst (resample_branch so noise n ps (rr (map Fin ws))),
                 particles_after = snd (resample_branch so noise n ps (rr (map Fin ws)))\<rparr>
           else \<lparr>logged = [''Number of effective particles high - not resampling''],
                 normalized = map Fin ws, N_eff = Fin (1 / (\<Sum>x\<leftarrow>ws. x * x)),
                 resampled = False, raised = None, particles_after = ps\<rparr>)"
proof -
  have n: "map (\<lambda>x. np_div x (np_sum (map Fin ws))) (map Fin ws) = map Fin ws"
    using assms by (simp add: np_sum_Fin)
  have q: "(\<Sum>x\<leftarrow>ws. x * x) \<noteq> 0" using sum_squares_pos[OF assms] by simp
  have e: "np_div (Fin 1) (np_sum (map np_square (map Fin ws))) = Fin (1 / (\<Sum>x\<leftarrow>ws. x * x))"
    using q by (simp only: map_np_square_Fin np_sum_Fin) simp
  show ?thesis
    unfolding resample_def n Let_def e
    using assms by (simp add: np_sum_Fin)
qed

lemma sum_squares_uniform:
  "0 < n \<Longrightarrow> (\<Sum>x\<leftarrow>replicate n (1 / real n). x * x) = 1 / real n"
  by (simp add: sum_list_replicate)

lemma sum_list_one_hot:
  "i < n \<Longrightarrow> sum_list (map f ((replicate n (0::real))[i := 1])) = real (n - 1) * f 0 + (f 1 :: real)"
  by (simp add: upd_conv_take_nth_drop sum_list_replicate min_def algebra_simps of_nat_diff)

text \<open>
  Claim C4. Let \<open>ws\<close> be a normalized weight vector (its sum is 1) of length \<open>n\<close>, the
  particle count. Then \<open>resample\<close> leaves the vector as it is and computes
  \<open>N_eff = 1 / \<Sum> w_i\<^sup>2\<close>. It resamples exactly when \<open>N_eff < 0.5 * n\<close>: in that case it
  calls \<open>residual_resample\<close> on the weights and what it raises and what it leaves in
  \<open>self.particles\<close> are what the redistribution (\<open>keep\<close>, \<open>lost\<close>, \<open>dupes\<close>,
  \<open>reassign_poses\<close>, noise) of the returned ids gives; otherwise it raises nothing and
  leaves \<open>self.particles\<close> as it is. For the uniform vector \<open>N_eff = n\<close> (and there is
  no resampling), for a one-hot vector \<open>N_eff = 1\<close>. The arithmetic is exact real
  arithmetic.
\<close>

theorem resample_effective_sample_size:
  assumes norm: "sum_list ws = 1" and len: "length ws = n"
  shows "N_eff (resample so rr noise n ps (map Fin ws)) = Fin (1 / (\<Sum>x\<leftarrow>ws. x * x))
       \<and> normalized (resample so rr noise n ps (map Fin ws)) = map Fin ws
       \<and> (resampled (resample so rr noise n ps (map Fin ws))
            \<longleftrightarrow> 1 / (\<Sum>x\<leftarrow>ws. x * x) < 0.5 * real n)
       \<and> (resampled (resample so rr noise n ps (map Fin ws))
            \<longrightarrow> raised (resample so rr noise n ps (map Fin ws))
                  = fst (resample_branch so noise n ps (rr (map Fin ws)))
              \<and> particles_after (resample so rr noise n ps (map Fin ws))
                  = snd (resample_branch so noise n ps (rr (map Fin ws))))
       \<and> (\<not> resampled (resample so rr noise n ps (map Fin ws))
            \<longrightarrow> raised (resample so rr noise n ps (map Fin ws)) = None
              \<and> particles_after (resample so rr noise n ps (map Fin ws)) = ps)
       \<and> (ws = replicate n (1 / real n)
            \<longrightarrow> N_eff (resample so rr noise n ps (map Fin ws)) = Fin (real n)
              \<and> \<not> resampled (resample so rr noise n ps (map Fin ws)))
       \<and> ((\<exists>i < n. ws = (replicate n 0)[i := 1])
            \<longrightarrow> N_eff (resample so rr noise n ps (map Fin ws)) = Fin 1)"
proof -
  let ?R = "resample so rr noise n ps (map Fin ws)"
  let ?q = "(\<Sum>x\<leftarrow>ws. x * x)"
  note r = resample_normalized[OF norm, of so rr noise n ps]
  have a: "N_eff ?R = Fin (1 / ?q)" by (simp add: r)
  have a': "normalized ?R = map Fin ws" by (simp add: r)
  have b: "resampled ?R \<longleftrightarrow> 1 / ?q < 0.5 * real n" by (simp add: r mult.commute)
  have c: "resampled ?R \<longrightarrow> raised ?R = fst (resample_branch so noise n ps (rr (map Fin ws)))
              \<and> particles_after ?R = snd (resample_branch so noise n ps (rr (map Fin ws)))"
    by (simp add: r)
  have c': "\<not> resampled ?R \<longrightarrow> raised ?R = None \<and> particles_after ?R = ps"
    by (simp add: r)
  have d: "ws = replicate n (1 / real n) \<longrightarrow> N_eff ?R = Fin (real n) \<and> \<not> resampled ?R"
  proof
    assume u: "ws = replicate n (1 / real n)"
    have n0: "0 < n"
    proof (rule Nat.gr0I)
      assume "n = 0"
      with u norm show False by simp
    qed
    then have "?q = 1 / real n" using u sum_squares_uniform by simp
    then have "1 / ?q = real n" by simp
    with a b n0 show "N_eff ?R = Fin (real n) \<and> \<not> resampled ?R" by simp
  qed
  have e: "(\<exists>i < n. ws = (replicate n 0)[i := 1]) \<longrightarrow> N_eff ?R = Fin 1"
  proof
    assume "\<exists>i < n. ws = (replicate n 0)[i := 1]"
    then obtain i where i: "i < n" "ws = (replicate n 0)[i := 1]" by blast
    then have "?q = 1" using sum_list_one_hot[of i n "\<lambda>x. x * x"] by simp
    with a show "N_eff ?R = Fin 1" by simp
  qed
  from a a' b c c' d e show ?thesis by blast
qed

text \<open>
  An example that resamples: three particles, the weights \<open>1, 0, 0\<close> and the resampled
  ids \<open>0, 0, 2\<close>. \<open>N_eff\<close> is 1, below 1.5; particle 1 is lost and receives the pose of
  particle 0, keeping its own weight.
\<close>

theorem resample_effective_sample_size_witness:
  "sum_list [1, 0, 0 :: real] = 1 \<and> length [1, 0, 0 :: real] = 3
   \<and> N_eff (resample remdups (\<lambda>v. [0, 0, 2]) (\<lambda>i l p. p) 3 (Some [p0, p1, p1])
              (map Fin [1, 0, 0])) = Fin 1
   \<and> resampled (resample remdups (\<lambda>v. [0, 0, 2]) (\<lambda>i l p. p) 3 (Some [p0, p1, p1])
              (map Fin [1, 0, 0]))
   \<and> raised (resample remdups (\<lambda>v. [0, 0, 2]) (\<lambda>i l p. p) 3 (Some [p0, p1, p1])
              (map Fin [1, 0, 0])) = None
   \<and> particles_after (resample remdups (\<lambda>v. [0, 0, 2]) (\<lambda>i l p. p) 3 (Some [p0, p1, p1])
              (map Fin [1, 0, 0])) = Some [p0, p0\<lparr>w := 4\<rparr>, p1]"
proof -
  let ?R = "resample remdups (\<lambda>v. [0, 0, 2]) (\<lambda>i l p. p) 3 (Some [p0, p1, p1]) (map Fin [1, 0, 0])"
  have h1: "sum_list [1, 0, 0 :: real] = 1" by simp
  have h2: "length [1, 0, 0 :: real] = 3" by simp
  have u3: "[0..<3] = [0, 1, 2]" by code_simp
  have lo: "lost_ids 3 (remdups [0, 0, 2]) = [1]" by code_simp
  have cp: "copy_pose p0 p1 = p0\<lparr>w := 4\<rparr>" by (simp add: copy_pose_def p0_def p1_def)
  have rb: "resample_branch remdups (\<lambda>i l p. p) 3 (Some [p0, p1, p1]) [0, 0, 2]
              = (None, Some [p0, p0\<lparr>w := 4\<rparr>, p1])"
    unfolding resample_branch_def Let_def lo u3 by (simp add: reassign_poses_def cp)
  from resample_effective_sample_size[OF h1 h2,
         of remdups "\<lambda>v. [0, 0, 2]" "\<lambda>i l p. p" "Some [p0, p1, p1]"]
  have n: "N_eff ?R = Fin (1 / (\<Sum>x\<leftarrow>[1, 0, 0 :: real]. x * x))"
    and t: "resampled ?R \<longleftrightarrow> 1 / (\<Sum>x\<leftarrow>[1, 0, 0 :: real]. x * x) < 0.5 * real 3"
    and b: "resampled ?R \<longrightarrow>
              raised ?R = fst (resample_branch remdups (\<lambda>i l p. p) 3 (Some [p0, p1, p1]) [0, 0, 2])
            \<and> particles_after ?R
                = snd (resample_branch remdups (\<lambda>i l p. p) 3 (Some [p0, p1, p1]) [0, 0, 2])"
    by blast+
  from t have r: "resampled ?R" by simp
  from n have n1: "N_eff ?R = Fin 1" by simp
  from b r rb have "raised ?R = None" "particles_after ?R = Some [p0, p0\<lparr>w := 4\<rparr>, p1]"
    by simp_all
  with h1 h2 n1 r show ?thesis by blast
qed

text \<open>
  Claim C3, evaluated on the code for two particles with weights \<open>0.0, 0.0\<close>. The
  in-place division \<open>weights /= weights.sum()\<close> comes first and turns both entries into
  \<open>nan\<close>; the sum tested afterwards is \<open>nan\<close>, which is not equal to \<open>0.\<close>, so
  \<open>All weights zero!\<close> is not logged. \<open>N_eff\<close> is \<open>nan\<close>, the comparison with
  \<open>self.pc*0.5\<close> is false, and the only message is the one of the branch for a high
  number of effective particles. Nothing is resampled and nothing is raised.
\<close>

theorem resample_zero_sum:
  "resample so rr noise 2 ps [Fin 0, Fin 0] =
     \<lparr>logged = [''Number of effective particles high - not resampling''],
      normalized = [NaN, NaN], N_eff = NaN, resampled = False,
      raised = None, particles_after = ps\<rparr>"
  by (simp add: resample_def np_sum_def)

section \<open>The aggregated pose\<close>

lemma np_min_Min:
  assumes "xs \<noteq> []"
  shows "np_min xs = Min (set xs)"
proof (cases xs)
  case Nil
  with assms show ?thesis by simp
next
  case (Cons a list)
  then show ?thesis using Min.set_eq_fold[of a list] by (simp add: np_min_def)
qed

lemma average_pose_eq:
  assumes "pose_list \<noteq> []"
  shows "average_pose qfe now pose_list self =
     (None, self\<lparr>avg_pose := (avg_pose self)\<lparr>
                pose_position_x := mean (map (\<lambda>(x, y, z, r, p, yw). x) pose_list),
                pose_position_y := mean (map (\<lambda>(x, y, z, r, p, yw). y) pose_list),
                pose_position_z := mean (map (\<lambda>(x, y, z, r, p, yw). z) pose_list),
                pose_orientation := qfe (mean (map (\<lambda>(x, y, z, r, p, yw). r) pose_list))
                                        (mean (map (\<lambda>(x, y, z, r, p, yw). p) pose_list))
                                        (circular_yaw (map (\<lambda>(x, y, z, r, p, yw). yw) pose_list)),
                header_stamp := now\<rparr>,
             avg_pub := avg_pub self @ [(avg_pose self)\<lparr>
                pose_position_x := mean (map (\<lambda>(x, y, z, r, p, yw). x) pose_list),
                pose_position_y := mean (map (\<lambda>(x, y, z, r, p, yw). y) pose_list),
                pose_position_z := mean (map (\<lambda>(x, y, z, r, p, yw). z) pose_list),
                pose_orientation := qfe (mean (map (\<lambda>(x, y, z, r, p, yw). r) pose_list))
                                        (mean (map (\<lambda>(x, y, z, r, p, yw). p) pose_list))
                                        (circular_yaw (map (\<lambda>(x, y, z, r, p, yw). yw) pose_list)),
                header_stamp := now\<rparr>]\<rparr>)"
proof -
  let ?yaws = "map (\<lambda>(x, y, z, r, p, yw). yw) pose_list"
  have ne: "map abs ?yaws \<noteq> []" using assms by simp
  have m: "np_min (map abs ?yaws) = Min (abs ` set ?yaws)"
    using np_min_Min[OF ne] by (simp only: set_map)
  have y: "mean (if np_min (map abs ?yaws) > pi / 2
                 then map (\<lambda>v. if v < 0 then v + 2 * pi else v) ?yaws else ?yaws)
           = circular_yaw ?yaws"
    unfolding m circular_yaw_def mean_def by (simp add: comp_def)
  show ?thesis
    unfolding average_pose_def Let_def y using assms by simp
qed

lemma circular_yaw_example: "circular_yaw [3, -3] = pi"
proof -
  have "pi / 2 < 3" using pi_less_4 by simp
  then show ?thesis by (simp add: circular_yaw_def)
qed

text \<open>
  Claim C6. For a non-empty \<open>pose_list\<close>, \<open>average_pose\<close> raises nothing; the position
  of the message it publishes is the arithmetic mean of the x, y and z columns; its
  orientation is \<open>quaternion_from_euler\<close> applied to the arithmetic means of the roll and
  pitch columns and to the yaw described by \<open>circular_yaw\<close>. For the yaws 3 and -3 that
  yaw is \<open>\<pi>\<close>. The arithmetic is exact real arithmetic.
\<close>

theorem average_pose_aggregate:
  assumes "pose_list \<noteq> []"
  shows "fst (average_pose qfe now pose_list self) = None
       \<and> pose_position_x (avg_pose (snd (average_pose qfe now pose_list self)))
           = sum_list (map (\<lambda>(x, y, z, r, p, yw). x) pose_list) / real (length pose_list)
       \<and> pose_position_y (avg_pose (snd (average_pose qfe now pose_list self)))
           = sum_list (map (\<lambda>(x, y, z, r, p, yw). y) pose_list) / real (length pose_list)
       \<and> pose_position_z (avg_pose (snd (average_pose qfe now pose_list self)))
           = sum_list (map (\<lambda>(x, y, z, r, p, yw). z) pose_list) / real (length pose_list)
       \<and> pose_orientation (avg_pose (snd (average_pose qfe now pose_list self)))
           = qfe (sum_list (map (\<lambda>(x, y, z, r, p, yw). r) pose_list) / real (length pose_list))
                 (sum_list (map (\<lambda>(x, y, z, r, p, yw). p) pose_list) / real (length pose_list))
                 (circular_yaw (map (\<lambda>(x, y, z, r, p, yw). yw) pose_list))
       \<and> avg_pub (snd (average_pose qfe now pose_list self))
           = avg_pub self @ [avg_pose (snd (average_pose qfe now pose_list self))]
       \<and> circular_yaw [3, -3] = pi"
  by (simp add: average_pose_eq[OF assms] mean_def circular_yaw_example)

theorem average_pose_aggregate_witness:
  "[(0, 0, 0, 0, 0, 3), (0, 0, 0, 0, 0, -3 :: real)] \<noteq> ([] :: pose_vec list)
   \<and> pose_orientation (avg_pose (snd (average_pose (\<lambda>r p y. (r, p, y)) 7
        [(0, 0, 0, 0, 0, 3), (0, 0, 0, 0, 0, -3)] pf0))) = (0, 0, pi)"
proof -
  have h: "[(0, 0, 0, 0, 0, 3), (0, 0, 0, 0, 0, -3 :: real)] \<noteq> ([] :: pose_vec list)" by simp
  from average_pose_aggregate[OF h, of "\<lambda>r p y. (r, p, y)" 7 pf0]
  have "pose_orientation (avg_pose (snd (average_pose (\<lambda>r p y. (r, p, y)) 7
          [(0, 0, 0, 0, 0, 3), (0, 0, 0, 0, 0, -3)] pf0)))
        = (0, 0, circular_yaw [3, -3])" and "circular_yaw [3, -3] = pi"
    by simp_all
  then show ?thesis by simp
qed

text \<open>
  The stamp of the estimate that \<open>average_pose\<close> publishes is the reading of the clock
  (\<open>rospy.Time.now()\<close>) at that call. \<open>odom_callback\<close>, which runs the filter step,
  publishes no estimate: the calls of \<open>update_rviz\<close>, the only caller of
  \<open>average_pose\<close>, are commented out.
\<close>

lemma odom_callback_avg_pub:
  "avg_pub (snd (odom_callback p2r so rr noise outs self odom_msg)) = avg_pub self"
  by (simp add: odom_callback_def Let_def split: option.splits sum.splits prod.splits)

lemma average_pose_stamp_is_clock:
  assumes "pose_list \<noteq> []"
  shows "header_stamp (avg_pose (snd (average_pose qfe now pose_list self))) = now
       \<and> avg_pub (snd (average_pose qfe now pose_list self))
           = avg_pub self @ [avg_pose (snd (average_pose qfe now pose_list self))]
       \<and> avg_pub (snd (odom_callback p2r so rr noise outs self odom_msg)) = avg_pub self"
  by (simp add: average_pose_eq[OF assms] odom_callback_avg_pub)

section \<open>The filter step of \<open>odom_callback\<close>\<close>

lemma collect_never_returns:
  "0 < nr \<Longrightarrow> collect nr 0 [] [] outs = Inl (if outs = [] then Blocked else TypeError)"
  by (cases outs) simp_all

text \<open>
  Claim C1, evaluated on the code for one worker whose response is the weight
  \<open>0.5 + 1e-30\<close> for particle 0. The first \<open>np.concatenate(weights, output[0])\<close> has the
  worker's array in the place of the axis and raises TypeError, so the loop assembles no
  weight vector, \<open>resample\<close> is not reached, and the callback ends with that exception.
\<close>

theorem collect_raises:
  "collect 1 0 [] [] [([1 / 2 + 1 / 10 ^ 30], [0])] = Inl TypeError
   \<and> fst (odom_callback (\<lambda>m od. ()) remdups (\<lambda>v. []) (\<lambda>i l p. p)
             [([1 / 2 + 1 / 10 ^ 30], [0])] pf0 \<lparr>stamp = 2, payload = 0\<rparr>) = Some TypeError"
  by (simp add: odom_callback_def pf0_def Let_def)

text \<open>
  Claim C2, evaluated on the code. Starting from \<open>pf0\<close>, an odometry message stamped 2
  triggers a filter step: the task put on the worker's queue carries the motion sample,
  and \<open>self.motion_prediction_params\<close> still holds it afterwards. After a further
  measurement (stamped 6) and a further odometry message (stamped 3) the next task
  carries the first sample again, before the new one. (The callback of the first step
  ended with the exception raised by \<open>np.concatenate\<close>, so \<open>old_time\<close> is still 1 and
  the second elapsed time is 2.)
\<close>

theorem odom_callback_keeps_motion:
  "motion_prediction_params (snd (odom_callback (\<lambda>m od. ()) remdups (\<lambda>v. []) (\<lambda>i l p. p)
        [([1 / 2 + 1 / 10 ^ 30], [0])] pf0 \<lparr>stamp = 2, payload = 0\<rparr>))
     = [(\<lparr>stamp = 2, payload = 0\<rparr>, 1)]
   \<and> in_queues (snd (odom_callback (\<lambda>m od. ()) remdups (\<lambda>v. []) (\<lambda>i l p. p)
        [([1 / 2 + 1 / 10 ^ 30], [0])] pf0 \<lparr>stamp = 2, payload = 0\<rparr>))
     = [[((), [(\<lparr>stamp = 2, payload = 0\<rparr>, 1)])]]
   \<and> in_queues (snd (odom_callback (\<lambda>m od. ()) remdups (\<lambda>v. []) (\<lambda>i l p. p)
        [([1 / 2 + 1 / 10 ^ 30], [0])]
        (mbes_callback
           (snd (odom_callback (\<lambda>m od. ()) remdups (\<lambda>v. []) (\<lambda>i l p. p)
              [([1 / 2 + 1 / 10 ^ 30], [0])] pf0 \<lparr>stamp = 2, payload = 0\<rparr>))
           \<lparr>stamp = 6, payload = ()\<rparr>)
        \<lparr>stamp = 3, payload = 1\<rparr>))
     = [[((), [(\<lparr>stamp = 2, payload = 0\<rparr>, 1)]),
         ((), [(\<lparr>stamp = 2, payload = 0\<rparr>, 1), (\<lparr>stamp = 3, payload = 1\<rparr>, 2)])]]"
  by (simp add: odom_callback_def mbes_callback_def pf0_def Let_def)

end
